theory Spec2Isabelle
  imports Main "HOL-Library.Log_Nat" "HOL-Library.Multiset"
begin

section \<open>The budgeter: a shallow embedding of js/data.js and js/utils.js\<close>

text \<open>
  The JavaScript of the expense tracker is embedded function by function. What the
  language itself does is written out where a property depends on it:
  \<^item> a Number is an IEEE-754 binary64 value: \<open>NaN\<close>, the two infinities, or a finite
    value carried as the rational it denotes; every arithmetic operation rounds its
    exact result to the nearest binary64 value, ties to even (\<open>fl\<close>). Negative zero
    is identified with zero: no function embedded here divides by a zero or prints a
    zero without taking its absolute value first;
  \<^item> a String is a \<open>string\<close>, read as the UTF-8 bytes of the text;
  \<^item> an object used as a dictionary is a map, or an association list in insertion
    order where the order of its keys matters. Keys that are array indices (which
    JavaScript enumerates first) or names inherited from \<open>Object.prototype\<close> are
    outside the model;
  \<^item> the clock, the host's parser of date strings, its locale-aware comparison and its
    locale-aware formatting are parameters of the functions that use them;
  \<^item> in-place mutation of the document is explicit state passing.
\<close>

subsection \<open>Numbers\<close>

datatype jsnum = NaN | PInf | NInf | Fin rat

definition pow2 :: "int \<Rightarrow> rat" where
  "pow2 e = (if 0 \<le> e then 2 ^ nat e else 1 / 2 ^ nat (- e))"

definition pow10 :: "int \<Rightarrow> rat" where
  "pow10 e = (if 0 \<le> e then 10 ^ nat e else 1 / 10 ^ nat (- e))"

text \<open>\<open>flog2 x\<close> is the integer \<open>k\<close> with \<open>2 ^ k \<le> x < 2 ^ (k + 1)\<close>, for \<open>0 < x\<close>.\<close>

definition flog2 :: "rat \<Rightarrow> int" where
  "flog2 x = (if 1 \<le> x then bitlen \<lfloor>x\<rfloor> - 1 else - bitlen (\<lceil>1 / x\<rceil> - 1))"

definition round_half_even :: "rat \<Rightarrow> int" where
  "round_half_even y =
     (let f = \<lfloor>y\<rfloor>; d = y - of_int f
      in if d < 1 / 2 then f else if 1 / 2 < d then f + 1 else if even f then f else f + 1)"

text \<open>
  The exponent of the unit in the last place of a binary64 value near \<open>x\<close>: 53
  significant bits, and never below the subnormal exponent \<open>-1074\<close>.
\<close>

definition expo :: "rat \<Rightarrow> int" where
  "expo x = max (flog2 \<bar>x\<bar> - 52) (- 1074)"

text \<open>
  Rounding an exact result to binary64: the magnitude goes to the nearest multiple of
  the unit in the last place, ties to the even one; a result of \<open>2 ^ 1024\<close> or more
  overflows.
\<close>

definition rounded_abs :: "rat \<Rightarrow> rat" where
  "rounded_abs x = of_int (round_half_even (\<bar>x\<bar> / pow2 (expo x))) * pow2 (expo x)"

definition fl :: "rat \<Rightarrow> jsnum" where
  "fl x =
     (if x = 0 then Fin 0
      else if 2 ^ 1024 \<le> rounded_abs x then (if 0 < x then PInf else NInf)
      else Fin (if 0 < x then rounded_abs x else - rounded_abs x))"

fun jneg :: "jsnum \<Rightarrow> jsnum" where
  "jneg NaN = NaN"
| "jneg PInf = NInf"
| "jneg NInf = PInf"
| "jneg (Fin a) = Fin (- a)"

text \<open>\<open>Math.abs\<close>.\<close>

fun jabs :: "jsnum \<Rightarrow> jsnum" where
  "jabs NaN = NaN"
| "jabs PInf = PInf"
| "jabs NInf = PInf"
| "jabs (Fin a) = Fin \<bar>a\<bar>"

fun jadd :: "jsnum \<Rightarrow> jsnum \<Rightarrow> jsnum" where
  "jadd (Fin a) (Fin b) = fl (a + b)"
| "jadd NaN y = NaN"
| "jadd x NaN = NaN"
| "jadd PInf NInf = NaN"
| "jadd NInf PInf = NaN"
| "jadd PInf y = PInf"
| "jadd NInf y = NInf"
| "jadd x PInf = PInf"
| "jadd x NInf = NInf"

definition jsub :: "jsnum \<Rightarrow> jsnum \<Rightarrow> jsnum" where
  "jsub x y = jadd x (jneg y)"



text \<open>The relational operators \<open><\<close>, \<open>>\<close>, \<open><=\<close> and \<open>===\<close>: false whenever an operand is \<open>NaN\<close>.\<close>

fun jlt :: "jsnum \<Rightarrow> jsnum \<Rightarrow> bool" where
  "jlt (Fin a) (Fin b) = (a < b)"
| "jlt NaN y = False"
| "jlt x NaN = False"
| "jlt PInf y = False"
| "jlt x NInf = False"
| "jlt NInf y = True"
| "jlt x PInf = True"

definition jgt :: "jsnum \<Rightarrow> jsnum \<Rightarrow> bool" where
  "jgt x y = jlt y x"

definition jeq :: "jsnum \<Rightarrow> jsnum \<Rightarrow> bool" where
  "jeq x y = (x \<noteq> NaN \<and> x = y)"

definition jle :: "jsnum \<Rightarrow> jsnum \<Rightarrow> bool" where
  "jle x y = (jlt x y \<or> jeq x y)"

text \<open>A Number is falsy when it is zero or \<open>NaN\<close>.\<close>

definition falsy_num :: "jsnum \<Rightarrow> bool" where
  "falsy_num x = (x = NaN \<or> x = Fin 0)"


text \<open>
  The values a Number can hold: a finite one is its own rounding. Every operation
  above returns such a value; the rational carried by \<open>Fin\<close> is otherwise unconstrained.
\<close>

definition is_number :: "jsnum \<Rightarrow> bool" where
  "is_number x = (case x of Fin a \<Rightarrow> fl a = Fin a | _ \<Rightarrow> True)"

subsection \<open>Strings\<close>

text \<open>
  The white space and line terminators that \<open>trim\<close>, \<open>parseFloat\<close> and \<open>Number\<close>
  skip, as the byte sequences of their UTF-8 encodings: U+0009 to U+000D, U+0020,
  U+00A0, U+1680, U+2000 to U+200A, U+2028, U+2029, U+202F, U+205F, U+3000, U+FEFF.
\<close>

definition ws_codes :: "nat list list" where
  "ws_codes =
     [[9], [10], [11], [12], [13], [32], [194, 160], [225, 154, 128],
      [226, 128, 128], [226, 128, 129], [226, 128, 130], [226, 128, 131],
      [226, 128, 132], [226, 128, 133], [226, 128, 134], [226, 128, 135],
      [226, 128, 136], [226, 128, 137], [226, 128, 138], [226, 128, 168],
      [226, 128, 169], [226, 128, 175], [226, 129, 159], [227, 128, 128],
      [239, 187, 191]]"

definition front_len :: "nat list list \<Rightarrow> string \<Rightarrow> nat" where
  "front_len ws s =
     (case filter (\<lambda>w. w \<noteq> [] \<and> take (length w) (map of_char s) = w) ws of
        [] \<Rightarrow> 0
      | w # _ \<Rightarrow> length w)"

lemma take_eq_length_le:
  assumes "take (length w) xs = w"
  shows "length w \<le> length xs"
proof -
  have "length (take (length w) xs) = length w"
    using assms by (rule arg_cong)
  then have "min (length xs) (length w) = length w"
    by (simp only: length_take)
  then show ?thesis by (metis min.cobounded1)
qed

lemma front_len_le: "front_len ws s \<le> length s"
proof (cases "filter (\<lambda>w. w \<noteq> [] \<and> take (length w) (map of_char s) = w) ws")
  case Nil
  then show ?thesis by (simp add: front_len_def)
next
  case (Cons w rest)
  have "w \<in> set (w # rest)" by simp
  then have "w \<in> set (filter (\<lambda>w. w \<noteq> [] \<and> take (length w) (map of_char s) = w) ws)"
    by (simp only: Cons)
  then have "take (length w) (map of_char s) = w"
    by (simp only: set_filter mem_Collect_eq)
  then have "length w \<le> length (map of_char s :: nat list)"
    by (rule take_eq_length_le)
  then have "length w \<le> length s" by (simp only: length_map)
  with Cons show ?thesis by (simp add: front_len_def)
qed

function strip_front :: "nat list list \<Rightarrow> string \<Rightarrow> string" where
  "strip_front ws s =
     (if front_len ws s = 0 then s else strip_front ws (drop (front_len ws s) s))"
  by pat_completeness auto
termination
proof (relation "measure (\<lambda>(ws, s). length s)")
  show "wf (measure (\<lambda>(ws, s). length s))" by simp
next
  fix ws :: "nat list list" and s :: string
  assume "front_len ws s \<noteq> 0"
  moreover have "front_len ws s \<le> length s" by (rule front_len_le)
  ultimately show "((ws, drop (front_len ws s) s), (ws, s)) \<in> measure (\<lambda>(ws, s). length s)"
    by simp
qed

definition trimStart :: "string \<Rightarrow> string" where
  "trimStart s = strip_front ws_codes s"

definition trimEnd :: "string \<Rightarrow> string" where
  "trimEnd s = rev (strip_front (map rev ws_codes) (rev s))"

definition trim :: "string \<Rightarrow> string" where
  "trim s = trimEnd (trimStart s)"

definition is_digit :: "char \<Rightarrow> bool" where
  "is_digit c = (48 \<le> (of_char c :: nat) \<and> (of_char c :: nat) \<le> 57)"

definition digit_val :: "char \<Rightarrow> nat" where
  "digit_val c = of_char c - 48"

definition digits_val :: "string \<Rightarrow> nat" where
  "digits_val ds = foldl (\<lambda>acc c. 10 * acc + digit_val c) 0 ds"

text \<open>An optional sign: whether it is a minus, and the rest.\<close>

definition take_sign :: "string \<Rightarrow> bool \<times> string" where
  "take_sign s =
     (case s of
        [] \<Rightarrow> (False, s)
      | c # cs \<Rightarrow>
          if c = CHR ''-'' then (True, cs)
          else if c = CHR ''+'' then (False, cs)
          else (False, s))"

text \<open>
  The exponent part of a decimal literal, when one is complete: its value and the rest.
\<close>

definition take_exponent :: "string \<Rightarrow> int \<times> string" where
  "take_exponent s =
     (case s of
        [] \<Rightarrow> (0, s)
      | c # cs \<Rightarrow>
          if c = CHR ''e'' \<or> c = CHR ''E'' then
            (let (neg, ds) = take_sign cs; ed = takeWhile is_digit ds
             in if ed = [] then (0, s)
                else ((if neg then - int (digits_val ed) else int (digits_val ed)),
                      dropWhile is_digit ds))
          else (0, s))"

text \<open>
  The longest prefix that is a \<open>StrDecimalLiteral\<close> (a sign, then \<open>Infinity\<close> or
  digits with an optional fraction and exponent): its Number value and what follows
  it, or \<open>None\<close> when no prefix is a literal.
\<close>

definition parse_decimal :: "string \<Rightarrow> (jsnum \<times> string) option" where
  "parse_decimal s =
     (let (neg, s1) = take_sign s in
      if take 8 s1 = ''Infinity'' then Some ((if neg then NInf else PInf), drop 8 s1)
      else
        let ip = takeWhile is_digit s1;
            r1 = dropWhile is_digit s1;
            dot = (case r1 of
                     [] \<Rightarrow> False
                   | c # cs \<Rightarrow> c = CHR ''.'' \<and> (ip \<noteq> [] \<or> (case cs of [] \<Rightarrow> False | d # _ \<Rightarrow> is_digit d)));
            fp = (if dot then takeWhile is_digit (tl r1) else []);
            r2 = (if dot then dropWhile is_digit (tl r1) else r1)
        in if ip = [] \<and> fp = [] then None
           else
             let (ex, r3) = take_exponent r2;
                 v = fl (of_nat (digits_val (ip @ fp)) * pow10 (ex - int (length fp)))
             in Some ((if neg then jneg v else v), r3))"

text \<open>\<open>parseFloat\<close> of a String.\<close>

definition parseFloat :: "string \<Rightarrow> jsnum" where
  "parseFloat s = (case parse_decimal (trimStart s) of None \<Rightarrow> NaN | Some (v, _) \<Rightarrow> v)"

text \<open>
  \<open>Number\<close> of a String: the whole trimmed text must be a numeric literal, the
  empty text is zero, and an unsigned literal may be hexadecimal, octal or binary.
\<close>

definition radix_digit :: "char \<Rightarrow> nat option" where
  "radix_digit c =
     (let n = (of_char c :: nat)
      in if 48 \<le> n \<and> n \<le> 57 then Some (n - 48)
         else if 97 \<le> n \<and> n \<le> 102 then Some (n - 87)
         else if 65 \<le> n \<and> n \<le> 70 then Some (n - 55)
         else None)"

definition radix_val :: "nat \<Rightarrow> string \<Rightarrow> nat option" where
  "radix_val b ds =
     (if ds \<noteq> [] \<and> list_all (\<lambda>c. case radix_digit c of None \<Rightarrow> False | Some d \<Rightarrow> d < b) ds
      then Some (foldl (\<lambda>acc c. b * acc + (case radix_digit c of None \<Rightarrow> 0 | Some d \<Rightarrow> d)) 0 ds)
      else None)"

definition radix_of :: "string \<Rightarrow> nat option" where
  "radix_of p =
     (if p = ''0x'' \<or> p = ''0X'' then Some 16
      else if p = ''0o'' \<or> p = ''0O'' then Some 8
      else if p = ''0b'' \<or> p = ''0B'' then Some 2
      else None)"

definition toNumber :: "string \<Rightarrow> jsnum" where
  "toNumber s =
     (let t = trim s in
      if t = [] then Fin 0
      else case radix_of (take 2 t) of
             Some b \<Rightarrow> (case radix_val b (drop 2 t) of None \<Rightarrow> NaN | Some n \<Rightarrow> fl (of_nat n))
           | None \<Rightarrow> (case parse_decimal t of Some (v, []) \<Rightarrow> v | _ \<Rightarrow> NaN))"

text \<open>\<open>s.split(c)\<close> for a separator of one character.\<close>

fun split_on :: "char \<Rightarrow> string \<Rightarrow> string list" where
  "split_on c [] = [[]]"
| "split_on c (x # xs) =
     (if x = c then [] # split_on c xs
      else (case split_on c xs of [] \<Rightarrow> [[x]] | p # ps \<Rightarrow> (x # p) # ps))"


text \<open>The decimal digits of a natural number, and \<open>String(n)\<close> of an integer.\<close>

fun show_nat :: "nat \<Rightarrow> string" where
  "show_nat n = (if n < 10 then [char_of (48 + n)] else show_nat (n div 10) @ [char_of (48 + n mod 10)])"

declare show_nat.simps [simp del]

definition show_int :: "int \<Rightarrow> string" where
  "show_int i = (if i < 0 then CHR ''-'' # show_nat (nat (- i)) else show_nat (nat i))"

definition padStart :: "nat \<Rightarrow> char \<Rightarrow> string \<Rightarrow> string" where
  "padStart n c s = replicate (n - length s) c @ s"

text \<open>\<open>k.toString().padStart(2, '0')\<close> of an integer.\<close>

definition two_digits :: "int \<Rightarrow> string" where
  "two_digits k = padStart 2 (CHR ''0'') (show_int k)"

subsection \<open>The host: clock and dates\<close>

text \<open>
  One reading of the clock: \<open>Date.now()\<close>, and of \<open>new Date()\<close> the local
  \<open>getFullYear()\<close>, \<open>getMonth()\<close> (0 to 11) and \<open>toISOString()\<close>.
\<close>

record clock =
  now_ms :: int
  now_year :: int
  now_month :: int
  now_iso :: string

text \<open>
  The clock of a running browser: a time at or after the epoch and inside the range
  of \<open>Date\<close>.
\<close>

definition valid_clock :: "clock \<Rightarrow> bool" where
  "valid_clock c =
     (1970 \<le> now_year c \<and> now_year c \<le> 275760 \<and> 0 \<le> now_month c \<and> now_month c \<le> 11)"

text \<open>
  A \<open>Date\<close> object: invalid, or a time value in milliseconds with its local year and
  month index. \<open>new Date(text)\<close> is the host's: a parameter \<open>newDate\<close>.
\<close>

datatype jsdate = InvalidDate | ValidDate int int int

fun getTime :: "jsdate \<Rightarrow> jsnum" where
  "getTime InvalidDate = NaN"
| "getTime (ValidDate t y m) = Fin (of_int t)"

fun getFullYear :: "jsdate \<Rightarrow> jsnum" where
  "getFullYear InvalidDate = NaN"
| "getFullYear (ValidDate t y m) = Fin (of_int y)"

fun getMonth :: "jsdate \<Rightarrow> jsnum" where
  "getMonth InvalidDate = NaN"
| "getMonth (ValidDate t y m) = Fin (of_int m)"

text \<open>
  The local year and month index of \<open>new Date(year, month, 1)\<close>: a year from 0 to 99
  counts from 1900, and a month outside 0 to 11 carries into the year. The date is
  taken to be inside the range of \<open>Date\<close>.
\<close>

definition make_month :: "int \<Rightarrow> int \<Rightarrow> int \<times> int" where
  "make_month y m =
     (let yy = (if 0 \<le> y \<and> y \<le> 99 then 1900 + y else y);
          t = yy * 12 + m
      in (t div 12, t mod 12))"

text \<open>The key \<open>`${year}-${month}`\<close> with the month padded to two digits.\<close>

definition month_key :: "int \<Rightarrow> int \<Rightarrow> string" where
  "month_key year m = show_int year @ ''-'' @ two_digits (m + 1)"

text \<open>
  Months counted from January of the year 0: the count of the clock's month, and the
  key of the month with a given count.
\<close>

definition clock_ordinal :: "clock \<Rightarrow> int" where
  "clock_ordinal c = now_year c * 12 + now_month c"

definition ordinal_key :: "int \<Rightarrow> string" where
  "ordinal_key n = month_key (n div 12) (n mod 12)"



definition getCurrentMonth :: "clock \<Rightarrow> string" where
  "getCurrentMonth c = month_key (now_year c) (now_month c)"

subsection \<open>The document\<close>

record expense =
  expense_id :: int
  name :: string
  category :: string
  amount :: jsnum
  date :: string
  expense_notes :: "string option"
  createdAt :: string

text \<open>
  What the form hands to \<open>validateExpense\<close> and \<open>addExpense\<close>: every field is the
  text of an input (empty when nothing was entered); the amount may also be a Number.
\<close>

datatype amount_input = AmountText string | AmountNumber jsnum

record draft =
  draft_name :: string
  draft_category :: string
  draft_amount :: amount_input
  draft_date :: string
  draft_notes :: "string option"

text \<open>
  \<open>parseFloat(v)\<close>: a Number is first printed, and the text printed for a Number
  reads back as that Number.
\<close>

fun parseFloat_of :: "amount_input \<Rightarrow> jsnum" where
  "parseFloat_of (AmountText s) = parseFloat s"
| "parseFloat_of (AmountNumber x) = x"

text \<open>\<open>!v\<close>: the empty text, zero and \<open>NaN\<close> are falsy.\<close>

fun falsy_amount :: "amount_input \<Rightarrow> bool" where
  "falsy_amount (AmountText s) = (s = [])"
| "falsy_amount (AmountNumber x) = falsy_num x"

record app_state =
  currency :: string
  monthlyIncome :: jsnum
  expenses :: "expense list"
  budgets :: "string \<rightharpoonup> jsnum"
  currentMonth :: string

definition MONTHLY_INCOME_JMD :: jsnum where
  "MONTHLY_INCOME_JMD = Fin 160000"

definition default_budgets :: "(string \<times> jsnum) list" where
  "default_budgets =
     [(''Housing'', Fin 50000), (''Food'', Fin 30000), (''Transport'', Fin 20000),
      (''Utilities'', Fin 15000), (''Entertainment'', Fin 10000),
      (''Healthcare'', Fin 10000), (''Shopping'', Fin 15000), (''Other'', Fin 20000)]"

definition defaultState :: "clock \<Rightarrow> app_state" where
  "defaultState c =
     \<lparr>currency = ''JMD'', monthlyIncome = MONTHLY_INCOME_JMD, expenses = [],
      budgets = map_of default_budgets, currentMonth = getCurrentMonth c\<rparr>"

subsection \<open>The store (js/data.js)\<close>

definition addExpense :: "clock \<Rightarrow> app_state \<Rightarrow> draft \<Rightarrow> app_state" where
  "addExpense c state d =
     (let newExpense =
            \<lparr>expense_id = now_ms c,
             name = draft_name d,
             category = draft_category d,
             amount = parseFloat_of (draft_amount d),
             date = draft_date d,
             expense_notes = Some (case draft_notes d of None \<Rightarrow> [] | Some n \<Rightarrow> n),
             createdAt = now_iso c\<rparr>
      in state\<lparr>expenses := expenses state @ [newExpense]\<rparr>)"






definition nth_opt :: "'a list \<Rightarrow> nat \<Rightarrow> 'a option" where
  "nth_opt xs i = (if i < length xs then Some (xs ! i) else None)"

text \<open>\<open>x === v\<close> for a Number \<open>x\<close> and a \<open>v\<close> that is a Number or \<open>undefined\<close>.\<close>

fun strict_eq :: "jsnum \<Rightarrow> jsnum option \<Rightarrow> bool" where
  "strict_eq x None = False"
| "strict_eq x (Some y) = jeq x y"

text \<open>The test both month filters share: the expense's date falls in the month.\<close>

definition in_month :: "(string \<Rightarrow> jsdate) \<Rightarrow> string \<Rightarrow> expense \<Rightarrow> bool" where
  "in_month newDate month e =
     (let parts = map toNumber (split_on (CHR ''-'') month);
          year = nth_opt parts 0;
          monthNum = nth_opt parts 1;
          expenseDate = newDate (date e)
      in strict_eq (getFullYear expenseDate) year \<and>
         strict_eq (jadd (getMonth expenseDate) (Fin 1)) monthNum)"

definition getExpensesForMonth :: "(string \<Rightarrow> jsdate) \<Rightarrow> app_state \<Rightarrow> string \<Rightarrow> expense list" where
  "getExpensesForMonth newDate state month = filter (in_month newDate month) (expenses state)"

definition getTotalExpenses :: "(string \<Rightarrow> jsdate) \<Rightarrow> app_state \<Rightarrow> string \<Rightarrow> jsnum" where
  "getTotalExpenses newDate state month =
     foldl (\<lambda>total e. jadd total (amount e)) (Fin 0) (getExpensesForMonth newDate state month)"




record trend_entry =
  trend_month :: string
  trend_label :: string
  trend_total :: jsnum

text \<open>
  The loop \<open>for (let i = months - 1; i >= 0; i--)\<close>; \<open>monthLabel\<close> is the host's
  \<open>toLocaleString\<close> of the month.
\<close>

fun trend_loop ::
  "(string \<Rightarrow> jsdate) \<Rightarrow> (int \<Rightarrow> int \<Rightarrow> string) \<Rightarrow> clock \<Rightarrow> app_state \<Rightarrow> nat \<Rightarrow> trend_entry list" where
  "trend_loop newDate monthLabel c state 0 = []"
| "trend_loop newDate monthLabel c state (Suc i) =
     (let (year, m) = make_month (now_year c) (now_month c - int i);
          monthKey = month_key year m
      in \<lparr>trend_month = monthKey, trend_label = monthLabel year m,
          trend_total = getTotalExpenses newDate state monthKey\<rparr>
         # trend_loop newDate monthLabel c state i)"

definition getSpendingTrend ::
  "(string \<Rightarrow> jsdate) \<Rightarrow> (int \<Rightarrow> int \<Rightarrow> string) \<Rightarrow> clock \<Rightarrow> app_state \<Rightarrow> nat \<Rightarrow> trend_entry list" where
  "getSpendingTrend newDate monthLabel c state months = trend_loop newDate monthLabel c state months"



subsection \<open>Helpers (js/utils.js)\<close>

text \<open>The table \<open>CURRENCY_SYMBOLS\<close>; the euro and pound signs are their UTF-8 bytes.\<close>

definition CURRENCY_SYMBOLS :: "(string \<times> string) list" where
  "CURRENCY_SYMBOLS =
     [(''JMD'', ''J$''), (''USD'', ''$''), (''EUR'', map char_of [226, 130, 172 :: nat]),
      (''GBP'', map char_of [194, 163 :: nat]), (''CAD'', ''C$''), (''AUD'', ''A$'')]"

text \<open>
  \<open>formatCurrency(amount, currency)\<close>; \<open>toLocaleString\<close> is the host's formatting
  of a Number for \<open>en-US\<close> with two fraction digits.
\<close>

definition formatCurrency :: "(jsnum \<Rightarrow> string) \<Rightarrow> jsnum \<Rightarrow> string \<Rightarrow> string" where
  "formatCurrency toLocaleString x cur =
     (let symbol = (case map_of CURRENCY_SYMBOLS cur of
                      None \<Rightarrow> cur
                    | Some s \<Rightarrow> if s = [] then cur else s);
          formatted = toLocaleString (jabs x)
      in symbol @ formatted)"




record validation =
  isValid :: bool
  errors :: "string list"

definition validateExpense :: "draft \<Rightarrow> validation" where
  "validateExpense d =
     (let errors1 = (if draft_name d = [] \<or> length (trim (draft_name d)) = 0
                     then [''Expense name is required''] else []);
          errors2 = errors1 @ (if draft_category d = []
                     then [''Category is required''] else []);
          errors3 = errors2 @ (if falsy_amount (draft_amount d)
                                  \<or> jle (parseFloat_of (draft_amount d)) (Fin 0)
                     then [''Amount must be greater than 0''] else []);
          errors4 = errors3 @ (if draft_date d = []
                     then [''Date is required''] else [])
      in \<lparr>isValid = (length errors4 = 0), errors = errors4\<rparr>)"

text \<open>
  \<open>Array.prototype.sort\<close> with a comparator: the sort is stable, and \<open>a\<close> goes
  after \<open>b\<close> exactly when \<open>cmp(a, b) > 0\<close> (a \<open>NaN\<close> counts as zero). It is written
  as the insertion of each element, from the last to the first, into the sorted rest.
\<close>

fun insert_sorted :: "('a \<Rightarrow> 'a \<Rightarrow> jsnum) \<Rightarrow> 'a \<Rightarrow> 'a list \<Rightarrow> 'a list" where
  "insert_sorted cmp x [] = [x]"
| "insert_sorted cmp x (y # ys) =
     (if jgt (cmp x y) (Fin 0) then y # insert_sorted cmp x ys else x # y # ys)"

definition array_sort :: "('a \<Rightarrow> 'a \<Rightarrow> jsnum) \<Rightarrow> 'a list \<Rightarrow> 'a list" where
  "array_sort cmp xs = foldr (insert_sorted cmp) xs []"

text \<open>
  The comparator of \<open>sortExpenses\<close>; \<open>localeCompare\<close> is the host's, and a criterion
  outside the four cases leaves the comparison at zero.
\<close>

definition expense_compare ::
  "(string \<Rightarrow> string \<Rightarrow> jsnum) \<Rightarrow> (string \<Rightarrow> jsdate) \<Rightarrow> string \<Rightarrow> string \<Rightarrow> expense \<Rightarrow> expense \<Rightarrow> jsnum" where
  "expense_compare localeCompare newDate criteria ord a b =
     (let comparison =
            (if criteria = ''date'' then jsub (getTime (newDate (date a))) (getTime (newDate (date b)))
             else if criteria = ''amount'' then jsub (amount a) (amount b)
             else if criteria = ''name'' then localeCompare (name a) (name b)
             else if criteria = ''category'' then localeCompare (category a) (category b)
             else Fin 0)
      in if ord = ''desc'' then jneg comparison else comparison)"

definition sortExpenses ::
  "(string \<Rightarrow> string \<Rightarrow> jsnum) \<Rightarrow> (string \<Rightarrow> jsdate) \<Rightarrow> expense list \<Rightarrow> string \<Rightarrow> string \<Rightarrow> expense list" where
  "sortExpenses localeCompare newDate es criteria ord =
     array_sort (expense_compare localeCompare newDate criteria ord) es"







subsection \<open>Notions of the properties\<close>







subsection \<open>Concrete inputs\<close>


definition sample_clock :: clock where
  "sample_clock =
     \<lparr>now_ms = 1793628000000, now_year = 2026, now_month = 10,
      now_iso = ''2026-11-02T14:00:00.000Z''\<rparr>"



text \<open>
  A host for the concrete inputs: it reads the date format \<open>YYYY-MM-DD\<close> only, as
  midnight in a time zone without offset, compares texts unit by unit, and labels a
  month by its English name.
\<close>

definition days_from_civil :: "int \<Rightarrow> int \<Rightarrow> int \<Rightarrow> int" where
  "days_from_civil y m d =
     (let y1 = (if m \<le> 2 then y - 1 else y);
          era = y1 div 400;
          yoe = y1 - era * 400;
          doy = (153 * (if 2 < m then m - 3 else m + 9) + 2) div 5 + d - 1;
          doe = yoe * 365 + yoe div 4 - yoe div 100 + doy
      in era * 146097 + doe - 719468)"

definition days_in_month :: "int \<Rightarrow> int \<Rightarrow> int" where
  "days_in_month y m =
     (if m = 2 then (if y mod 4 = 0 \<and> (y mod 100 \<noteq> 0 \<or> y mod 400 = 0) then 29 else 28)
      else if m = 4 \<or> m = 6 \<or> m = 9 \<or> m = 11 then 30 else 31)"

definition iso_date :: "string \<Rightarrow> jsdate" where
  "iso_date s =
     (if length s = 10 \<and> s ! 4 = CHR ''-'' \<and> s ! 7 = CHR ''-''
         \<and> list_all is_digit (take 4 s) \<and> list_all is_digit (take 2 (drop 5 s))
         \<and> list_all is_digit (drop 8 s)
      then
        let y = int (digits_val (take 4 s));
            m = int (digits_val (take 2 (drop 5 s)));
            d = int (digits_val (drop 8 s))
        in if 1 \<le> m \<and> m \<le> 12 \<and> 1 \<le> d \<and> d \<le> days_in_month y m
           then ValidDate (days_from_civil y m d * 86400000) y (m - 1)
           else InvalidDate
      else InvalidDate)"

fun unit_compare :: "string \<Rightarrow> string \<Rightarrow> jsnum" where
  "unit_compare [] [] = Fin 0"
| "unit_compare [] (y # ys) = Fin (- 1)"
| "unit_compare (x # xs) [] = Fin 1"
| "unit_compare (x # xs) (y # ys) =
     (if (of_char x :: nat) < of_char y then Fin (- 1)
      else if (of_char y :: nat) < of_char x then Fin 1
      else unit_compare xs ys)"

definition english_label :: "int \<Rightarrow> int \<Rightarrow> string" where
  "english_label y m =
     [''Jan'', ''Feb'', ''Mar'', ''Apr'', ''May'', ''Jun'', ''Jul'', ''Aug'', ''Sep'', ''Oct'',
      ''Nov'', ''Dec''] ! nat m @ '' '' @ show_int y"

definition coffee :: expense where
  "coffee =
     \<lparr>expense_id = 1793628000000, name = ''Coffee'', category = ''Food'', amount = Fin (7 / 2),
      date = ''2026-11-02'', expense_notes = Some [], createdAt = ''2026-11-02T14:00:00.000Z''\<rparr>"

definition lunch :: expense where
  "lunch =
     \<lparr>expense_id = 1793714400000, name = ''Lunch'', category = ''Food'', amount = Fin 12,
      date = ''2026-11-03'', expense_notes = Some ''with Sam'', createdAt = ''2026-11-03T14:00:00.000Z''\<rparr>"

definition tea :: expense where
  "tea =
     \<lparr>expense_id = 1793790000000, name = ''Tea'', category = ''Food'', amount = Fin (7 / 2),
      date = ''2026-11-04'', expense_notes = None, createdAt = ''2026-11-04T11:00:00.000Z''\<rparr>"

definition gift :: expense where
  "gift =
     \<lparr>expense_id = 1793800000000, name = ''Gift'', category = ''Other'', amount = Fin 20,
      date = ''next week'', expense_notes = None, createdAt = ''2026-11-04T13:46:40.000Z''\<rparr>"

definition november_state :: app_state where
  "november_state = (defaultState sample_clock)\<lparr>expenses := [coffee, gift, lunch]\<rparr>"


definition abc_draft :: draft where
  "abc_draft =
     \<lparr>draft_name = ''Lunch'', draft_category = ''Food'', draft_amount = AmountText ''abc'',
      draft_date = ''2026-11-02'', draft_notes = None\<rparr>"







section \<open>Properties\<close>

subsection \<open>Rounding\<close>

lemma pow2_powi: "pow2 e = 2 powi e"
  by (simp add: pow2_def power_int_def power_one_over inverse_eq_divide)

lemma pow2_pos: "0 < pow2 e"
  by (simp add: pow2_powi)

lemma pow2_add: "pow2 (i + j) = pow2 i * pow2 j"
  by (simp add: pow2_powi power_int_add)

lemma pow2_mono: "i \<le> j \<Longrightarrow> pow2 i \<le> pow2 j"
  by (simp add: pow2_powi power_int_increasing)



lemma pow2_nat: "pow2 (int k) = 2 ^ k"
  by (simp add: pow2_def)

lemma flog2_bounds:
  assumes "0 < x"
  shows "pow2 (flog2 x) \<le> x \<and> x < pow2 (flog2 x + 1)"
proof (cases "1 \<le> x")
  case True
  define n where "n = \<lfloor>x\<rfloor>"
  have n1: "1 \<le> n" using True by (simp add: n_def)
  then have n0: "0 < n" by simp
  have bl: "1 \<le> bitlen n" using n0 bitlen_eq_zero_iff [of n] bitlen_nonneg [of n] by linarith
  from bitlen_bounds [OF n0]
  have lo: "(2::int) ^ nat (bitlen n - 1) \<le> n" and hi: "n < 2 ^ nat (bitlen n)" by simp_all
  have fl2: "flog2 x = bitlen n - 1" using True by (simp add: flog2_def n_def)
  have "pow2 (bitlen n - 1) = of_int (2 ^ nat (bitlen n - 1))"
    using bl by (simp add: pow2_def)
  also have "\<dots> \<le> of_int n" using lo by (simp only: of_int_le_iff)
  also have "\<dots> \<le> x" by (simp add: n_def)
  finally have A: "pow2 (flog2 x) \<le> x" by (simp add: fl2)
  have "x < of_int (n + 1)" using floor_correct [of x] by (simp add: n_def)
  also have "\<dots> \<le> of_int (2 ^ nat (bitlen n))" using hi by (simp only: of_int_le_iff)
  also have "\<dots> = pow2 (bitlen n)" using bl by (simp add: pow2_def)
  finally have B: "x < pow2 (flog2 x + 1)" by (simp add: fl2)
  from A B show ?thesis ..
next
  case False
  then have x1: "x < 1" by simp
  define c where "c = \<lceil>1 / x\<rceil>"
  have inv1: "1 < 1 / x" using assms x1 by simp
  moreover have "1 / x \<le> of_int c" unfolding c_def by (rule le_of_int_ceiling)
  ultimately have "(1::rat) < of_int c" by (rule less_le_trans)
  then have c2: "2 \<le> c" by simp
  then have c0: "0 < c - 1" by simp
  define k where "k = bitlen (c - 1)"
  have k1: "1 \<le> k" using c0 bitlen_eq_zero_iff [of "c - 1"] bitlen_nonneg [of "c - 1"] unfolding k_def by linarith
  from bitlen_bounds [OF c0]
  have lo: "(2::int) ^ nat (k - 1) \<le> c - 1" and hi: "c - 1 < 2 ^ nat k" by (simp_all add: k_def)
  have fl2: "flog2 x = - k" using False by (simp add: flog2_def c_def k_def)
  have "1 / x \<le> of_int c" by (simp add: c_def)
  also have "\<dots> \<le> of_int (2 ^ nat k)" using hi by (simp only: of_int_le_iff)
  finally have "1 / x \<le> 2 ^ nat k" by simp
  then have "1 \<le> 2 ^ nat k * x" using assms by (simp add: field_simps)
  then have A: "pow2 (- k) \<le> x" using k1 by (simp add: pow2_def field_simps)
  have "of_int (c - 1) < 1 / x" using ceiling_correct [of "1 / x"] by (simp add: c_def)
  moreover have "(of_int (2 ^ nat (k - 1)) :: rat) \<le> of_int (c - 1)" using lo by (simp only: of_int_le_iff)
  ultimately have "2 ^ nat (k - 1) < 1 / x" by simp
  then have "2 ^ nat (k - 1) * x < 1" using assms by (simp add: field_simps)
  then have B: "x < pow2 (- k + 1)"
  proof (cases "k = 1")
    case True
    then show ?thesis using x1 by (simp add: pow2_def)
  next
    case False
    then have "- k + 1 < 0" using k1 by simp
    then have "pow2 (- k + 1) = 1 / 2 ^ nat (k - 1)" by (simp add: pow2_def)
    moreover have "x < 1 / 2 ^ nat (k - 1)"
      using \<open>2 ^ nat (k - 1) * x < 1\<close> by (simp add: pos_less_divide_eq mult.commute)
    ultimately show ?thesis by (simp only:)
  qed
  from A B show ?thesis by (simp add: fl2)
qed





lemma expo_ge: "- 1074 \<le> expo x"
  by (simp add: expo_def)




lemma round_half_even_ge_floor: "\<lfloor>y\<rfloor> \<le> round_half_even y"
  by (simp add: round_half_even_def Let_def)

lemma round_half_even_pos:
  assumes "1 \<le> y"
  shows "1 \<le> round_half_even y"
proof -
  have "1 \<le> \<lfloor>y\<rfloor>" using assms by simp
  with round_half_even_ge_floor [of y] show ?thesis by linarith
qed

lemma expo_pow2_le:
  assumes "x \<noteq> 0" and "pow2 (- 1074) \<le> \<bar>x\<bar>"
  shows "pow2 (expo x) \<le> \<bar>x\<bar>"
proof (cases "- 1074 \<le> flog2 \<bar>x\<bar> - 52")
  case True
  then have "expo x = flog2 \<bar>x\<bar> - 52" by (simp add: expo_def)
  then have "pow2 (expo x) \<le> pow2 (flog2 \<bar>x\<bar>)" by (simp add: pow2_mono)
  also have "\<dots> \<le> \<bar>x\<bar>" using flog2_bounds [of "\<bar>x\<bar>"] assms(1) by simp
  finally show ?thesis .
next
  case False
  then have "expo x = - 1074" by (simp add: expo_def)
  with assms(2) show ?thesis by simp
qed

text \<open>The rounding of a result that is at least the smallest subnormal keeps its sign.\<close>

lemma rounded_abs_pos:
  assumes "x \<noteq> 0" and "pow2 (- 1074) \<le> \<bar>x\<bar>"
  shows "0 < rounded_abs x"
proof -
  have "pow2 (expo x) \<le> \<bar>x\<bar>" using assms by (rule expo_pow2_le)
  then have "1 \<le> \<bar>x\<bar> / pow2 (expo x)" using pow2_pos [of "expo x"] by (simp add: pos_le_divide_eq)
  then have "1 \<le> round_half_even (\<bar>x\<bar> / pow2 (expo x))" by (rule round_half_even_pos)
  then have "(0::rat) < of_int (round_half_even (\<bar>x\<bar> / pow2 (expo x)))" by simp
  then show ?thesis unfolding rounded_abs_def using pow2_pos [of "expo x"] by simp
qed

lemma fl_negative:
  assumes "x < 0" and "pow2 (- 1074) \<le> \<bar>x\<bar>"
  shows "jlt (fl x) (Fin 0)"
proof -
  have "x \<noteq> 0" using assms(1) by simp
  from rounded_abs_pos [OF this assms(2)] show ?thesis
    unfolding fl_def using assms(1) by simp
qed

lemma fl_positive:
  assumes "0 < x" and "pow2 (- 1074) \<le> \<bar>x\<bar>"
  shows "jlt (Fin 0) (fl x)"
proof -
  have "x \<noteq> 0" using assms(1) by simp
  from rounded_abs_pos [OF this assms(2)] show ?thesis
    unfolding fl_def using assms(1) by simp
qed

text \<open>A finite Number is a multiple of the smallest subnormal.\<close>

lemma is_number_grid:
  assumes "is_number (Fin a)"
  shows "\<exists>k::int. a = of_int k * pow2 (- 1074)"
proof (cases "a = 0")
  case True
  then have "a = of_int 0 * pow2 (- 1074)" by simp
  then show ?thesis by blast
next
  case False
  define e where "e = expo a"
  define m where "m = round_half_even (\<bar>a\<bar> / pow2 e)"
  have fa: "fl a = Fin a" using assms by (simp add: is_number_def)
  have "a = rounded_abs a \<or> a = - rounded_abs a"
    using fa False unfolding fl_def by (auto split: if_splits)
  then have "a = of_int m * pow2 e \<or> a = - (of_int m * pow2 e)"
    by (simp only: rounded_abs_def m_def e_def)
  moreover have "pow2 e = of_int (2 ^ nat (e + 1074)) * pow2 (- 1074)"
  proof -
    have "0 \<le> e + 1074" using expo_ge [of a] by (simp add: e_def)
    then have "pow2 (e + 1074) = of_int (2 ^ nat (e + 1074))" by (simp add: pow2_def)
    moreover have "pow2 e = pow2 (e + 1074) * pow2 (- 1074)"
      using pow2_add [of "e + 1074" "- 1074"] by simp
    ultimately show ?thesis by simp
  qed
  ultimately have "a = of_int (m * 2 ^ nat (e + 1074)) * pow2 (- 1074)
      \<or> a = of_int (- (m * 2 ^ nat (e + 1074))) * pow2 (- 1074)"
    by (simp add: mult.assoc)
  then show ?thesis by blast
qed

lemma is_number_diff:
  assumes "is_number (Fin a)" and "is_number (Fin b)" and "a \<noteq> b"
  shows "pow2 (- 1074) \<le> \<bar>a - b\<bar>"
proof -
  from is_number_grid [OF assms(1)] obtain k :: int where a: "a = of_int k * pow2 (- 1074)" by blast
  from is_number_grid [OF assms(2)] obtain l :: int where b: "b = of_int l * pow2 (- 1074)" by blast
  have "k \<noteq> l" using assms(3) a b by auto
  then have "1 \<le> \<bar>k - l\<bar>" by simp
  then have "(1::rat) \<le> of_int \<bar>k - l\<bar>" by (simp only: of_int_1_le_iff)
  then have "1 * pow2 (- 1074) \<le> of_int \<bar>k - l\<bar> * pow2 (- 1074)"
    using pow2_pos [of "- 1074"] by (simp only: mult_le_cancel_right) simp
  moreover have "\<bar>a - b\<bar> = of_int \<bar>k - l\<bar> * pow2 (- 1074)"
    using pow2_pos [of "- 1074"] by (simp add: a b abs_mult left_diff_distrib [symmetric])
  ultimately show ?thesis by simp
qed




lemma round_half_even_nearest:
  assumes "\<bar>y - of_int m\<bar> < 1 / 2"
  shows "round_half_even y = m"
proof (cases "of_int m \<le> y")
  case True
  with assms have "y < of_int m + 1" by linarith
  with True have f: "\<lfloor>y\<rfloor> = m" by (simp add: floor_unique)
  from assms True have "y - of_int m < 1 / 2" by linarith
  with f show ?thesis by (simp add: round_half_even_def Let_def)
next
  case False
  with assms have lo: "of_int m - 1 \<le> y" and hi: "y < of_int m" by linarith+
  have f: "\<lfloor>y\<rfloor> = m - 1"
  proof (rule floor_unique)
    show "of_int (m - 1) \<le> y" using lo by simp
    show "y < of_int (m - 1) + 1" using hi by simp
  qed
  from assms False have "1 / 2 < y - (of_int m - 1)" by linarith
  with f show ?thesis by (simp add: round_half_even_def Let_def)
qed





















subsection \<open>The store\<close>







subsection \<open>Formatting\<close>

text \<open>
  Claim C10. \<open>formatCurrency\<close> formats the absolute value of the amount: an amount
  and its negation give the same text, which is the text of the absolute value, and
  the Number handed to the host's formatter is never below zero.
\<close>

theorem formatCurrency_discards_sign:
  "formatCurrency toLocaleString (jneg x) cur = formatCurrency toLocaleString x cur
   \<and> formatCurrency toLocaleString x cur = formatCurrency toLocaleString (jabs x) cur
   \<and> \<not> jlt (jabs x) (Fin 0)"
  by (cases x) (simp_all add: formatCurrency_def)

subsection \<open>Sorting\<close>

lemma mset_insert_sorted: "mset (insert_sorted cmp x ys) = add_mset x (mset ys)"
  by (induction ys) auto

lemma mset_array_sort: "mset (array_sort cmp xs) = mset xs"
  by (induction xs) (auto simp: array_sort_def mset_insert_sorted)

lemma set_array_sort: "set (array_sort cmp xs) = set xs"
  using mset_array_sort [of cmp xs] by (metis set_mset_mset)

lemma array_sort_Cons: "array_sort cmp (x # xs) = insert_sorted cmp x (array_sort cmp xs)"
  by (simp add: array_sort_def)

lemma jlt_trans: "jlt x y \<Longrightarrow> jlt y z \<Longrightarrow> jlt x z"
  by (cases x; cases y; cases z) auto

lemma jlt_asym: "jlt x y \<Longrightarrow> \<not> jlt y x"
  by (cases x; cases y) auto

lemma jlt_total: "x \<noteq> NaN \<Longrightarrow> y \<noteq> NaN \<Longrightarrow> x \<noteq> y \<Longrightarrow> jlt x y \<or> jlt y x"
  by (cases x; cases y) auto

lemma jgt_jneg: "jgt (jneg v) (Fin 0) = jlt v (Fin 0)"
  by (cases v) (auto simp: jgt_def)

lemma jsub_Fin_sign:
  assumes "is_number (Fin a)" and "is_number (Fin b)" and "a \<noteq> b"
  shows "jlt (Fin 0) (jsub (Fin a) (Fin b)) = (b < a)"
    and "jlt (jsub (Fin a) (Fin b)) (Fin 0) = (a < b)"
proof -
  have d: "pow2 (- 1074) \<le> \<bar>a - b\<bar>" using assms by (rule is_number_diff)
  have s: "jsub (Fin a) (Fin b) = fl (a - b)" by (simp add: jsub_def)
  show "jlt (Fin 0) (jsub (Fin a) (Fin b)) = (b < a)"
  proof (cases "b < a")
    case True
    then have "0 < a - b" by simp
    from fl_positive [OF this d] True show ?thesis by (simp add: s)
  next
    case False
    with assms(3) have "a - b < 0" by simp
    from fl_negative [OF this d] have "jlt (fl (a - b)) (Fin 0)" .
    then have "\<not> jlt (Fin 0) (fl (a - b))" by (rule jlt_asym)
    with False show ?thesis by (simp add: s)
  qed
  show "jlt (jsub (Fin a) (Fin b)) (Fin 0) = (a < b)"
  proof (cases "a < b")
    case True
    then have "a - b < 0" by simp
    from fl_negative [OF this d] True show ?thesis by (simp add: s)
  next
    case False
    with assms(3) have "0 < a - b" by simp
    from fl_positive [OF this d] have "jlt (Fin 0) (fl (a - b))" .
    then have "\<not> jlt (fl (a - b)) (Fin 0)" by (rule jlt_asym)
    with False show ?thesis by (simp add: s)
  qed
qed

lemma jsub_sign:
  assumes "is_number x" and "is_number y" and "x \<noteq> NaN" and "y \<noteq> NaN" and "x \<noteq> y"
  shows "jgt (jsub x y) (Fin 0) = jlt y x"
    and "jgt (jneg (jsub x y)) (Fin 0) = jlt x y"
proof -
  show "jgt (jsub x y) (Fin 0) = jlt y x"
  proof (cases x)
    case (Fin a)
    note xa = this
    show ?thesis
    proof (cases y)
      case (Fin b)
      with xa assms jsub_Fin_sign(1) [of a b] show ?thesis by (simp add: jgt_def)
    qed (use xa assms in \<open>simp_all add: jgt_def jsub_def\<close>)
  qed (use assms in \<open>cases y; simp add: jgt_def jsub_def\<close>)+
  show "jgt (jneg (jsub x y)) (Fin 0) = jlt x y"
  proof (cases x)
    case (Fin a)
    note xa = this
    show ?thesis
    proof (cases y)
      case (Fin b)
      with xa assms jsub_Fin_sign(2) [of a b] show ?thesis by (simp add: jgt_jneg)
    qed (use xa assms in \<open>simp_all add: jgt_def jsub_def\<close>)
  qed (use assms in \<open>cases y; simp add: jgt_def jsub_def\<close>)+
qed

lemma insert_sorted_filter:
  assumes "transp R" and "asymp R" and "sorted_wrt R ys"
    and "list_all (\<lambda>y. (jgt (cmp x y) (Fin 0) = R y x) \<and> (R y x \<or> R x y)) ys"
  shows "insert_sorted cmp x ys = filter (\<lambda>y. R y x) ys @ x # filter (\<lambda>y. R x y) ys"
  using assms(3,4)
proof (induction ys)
  case Nil
  show ?case by simp
next
  case (Cons y ys)
  from Cons.prems(1) have sy: "\<forall>z\<in>set ys. R y z" and s: "sorted_wrt R ys" by simp_all
  from Cons.prems(2) have cy: "jgt (cmp x y) (Fin 0) = R y x" and ex: "R y x \<or> R x y"
    and rest: "list_all (\<lambda>y. (jgt (cmp x y) (Fin 0) = R y x) \<and> (R y x \<or> R x y)) ys" by simp_all
  note IH = Cons.IH [OF s rest]
  show ?case
  proof (cases "R y x")
    case True
    then have "\<not> R x y" using assms(2) by (metis asympD)
    with True cy IH show ?thesis by simp
  next
    case False
    with ex have xy: "R x y" by simp
    have all: "\<forall>z\<in>set ys. R x z" using sy xy assms(1) by (metis transpD)
    have none: "\<forall>z\<in>set ys. \<not> R z x" using all assms(2) by (metis asympD)
    have f1: "filter (\<lambda>y. R y x) ys = []" using none by (simp add: filter_empty_conv)
    have f2: "filter (\<lambda>y. R x y) ys = ys" using all by (simp add: filter_id_conv)
    from False xy cy f1 f2 show ?thesis by simp
  qed
qed

lemma sorted_wrt_insert_split:
  assumes "transp R" and "sorted_wrt R ys"
  shows "sorted_wrt R (filter (\<lambda>y. R y x) ys @ x # filter (\<lambda>y. R x y) ys)"
proof -
  have a: "sorted_wrt R (filter (\<lambda>y. R y x) ys)" using assms(2) by (rule sorted_wrt_filter)
  have b: "sorted_wrt R (filter (\<lambda>y. R x y) ys)" using assms(2) by (rule sorted_wrt_filter)
  have b': "sorted_wrt R (x # filter (\<lambda>y. R x y) ys)" using b by simp
  have c: "\<forall>u\<in>set (filter (\<lambda>y. R y x) ys). \<forall>v\<in>set (x # filter (\<lambda>y. R x y) ys). R u v"
  proof (intro ballI)
    fix u v
    assume u: "u \<in> set (filter (\<lambda>y. R y x) ys)" and v: "v \<in> set (x # filter (\<lambda>y. R x y) ys)"
    from u have ux: "R u x" by simp
    from v have "v = x \<or> R x v" by auto
    then show "R u v"
    proof
      assume "v = x"
      with ux show ?thesis by simp
    next
      assume "R x v"
      with ux assms(1) show ?thesis by (metis transpD)
    qed
  qed
  show ?thesis by (rule iffD2 [OF sorted_wrt_append]) (intro conjI a b' c)
qed

lemma array_sort_rev:
  assumes "transp R" and "asymp R" and "distinct xs"
    and "\<forall>a\<in>set xs. \<forall>b\<in>set xs. a \<noteq> b \<longrightarrow>
           (jgt (c a b) (Fin 0) = R b a) \<and> (jgt (d a b) (Fin 0) = R a b) \<and> (R a b \<or> R b a)"
  shows "array_sort d xs = rev (array_sort c xs) \<and> sorted_wrt R (array_sort c xs)"
  using assms(3,4)
proof (induction xs)
  case Nil
  show ?case by (simp add: array_sort_def)
next
  case (Cons x xs)
  define S where "S = array_sort c xs"
  have setS: "set S = set xs" by (simp add: S_def set_array_sort)
  from Cons.prems have dx: "distinct xs" and xn: "x \<notin> set xs" by simp_all
  from Cons.prems(2) have sub: "\<forall>a\<in>set xs. \<forall>b\<in>set xs. a \<noteq> b \<longrightarrow>
           (jgt (c a b) (Fin 0) = R b a) \<and> (jgt (d a b) (Fin 0) = R a b) \<and> (R a b \<or> R b a)"
    by simp
  from Cons.IH [OF dx sub] have IH: "array_sort d xs = rev S" and srt: "sorted_wrt R S"
    by (simp_all add: S_def)
  have each: "\<And>y. y \<in> set S \<Longrightarrow>
      (jgt (c x y) (Fin 0) = R y x) \<and> (jgt (d x y) (Fin 0) = R x y) \<and> (R x y \<or> R y x)"
  proof -
    fix y assume "y \<in> set S"
    then have "y \<in> set xs" by (simp only: setS)
    with xn have "x \<noteq> y" by blast
    with Cons.prems(2) \<open>y \<in> set xs\<close> show
      "(jgt (c x y) (Fin 0) = R y x) \<and> (jgt (d x y) (Fin 0) = R x y) \<and> (R x y \<or> R y x)"
      by simp
  qed
  have asc: "insert_sorted c x S = filter (\<lambda>y. R y x) S @ x # filter (\<lambda>y. R x y) S"
  proof (rule insert_sorted_filter [OF assms(1,2) srt])
    show "list_all (\<lambda>y. jgt (c x y) (Fin 0) = R y x \<and> (R y x \<or> R x y)) S"
      unfolding list_all_iff using each by blast
  qed
  have tr: "transp (\<lambda>a b. R b a)" using assms(1) by (metis (mono_tags, lifting) transpD transpI)
  have asy: "asymp (\<lambda>a b. R b a)" using assms(2) by (metis (mono_tags, lifting) asympD asympI)
  have srt': "sorted_wrt (\<lambda>a b. R b a) (rev S)" using srt by (simp add: sorted_wrt_rev)
  have desc: "insert_sorted d x (rev S) = filter (\<lambda>y. R x y) (rev S) @ x # filter (\<lambda>y. R y x) (rev S)"
  proof (rule insert_sorted_filter [OF tr asy srt'])
    show "list_all (\<lambda>y. jgt (d x y) (Fin 0) = R x y \<and> (R x y \<or> R y x)) (rev S)"
      unfolding list_all_iff using each by simp
  qed
  have "array_sort d (x # xs) = insert_sorted d x (rev S)" by (simp add: array_sort_Cons IH)
  also have "\<dots> = rev (insert_sorted c x S)" by (simp only: desc asc) (simp add: rev_filter)
  finally have A: "array_sort d (x # xs) = rev (array_sort c (x # xs))"
    by (simp add: array_sort_Cons S_def)
  have "sorted_wrt R (insert_sorted c x S)"
    by (simp only: asc) (rule sorted_wrt_insert_split [OF assms(1) srt])
  then have B: "sorted_wrt R (array_sort c (x # xs))" by (simp add: array_sort_Cons S_def)
  from A B show ?case ..
qed

lemma sortExpenses_amount_rev:
  assumes "list_all (\<lambda>e. amount e \<noteq> NaN \<and> is_number (amount e)) es"
    and "distinct (map amount es)"
  shows "sortExpenses localeCompare newDate es ''amount'' ''desc''
         = rev (sortExpenses localeCompare newDate es ''amount'' ''asc'')"
proof -
  define R :: "expense \<Rightarrow> expense \<Rightarrow> bool" where "R = (\<lambda>a b. jlt (amount a) (amount b))"
  have tr: "transp R" unfolding R_def by (rule transpI) (rule jlt_trans)
  have asy: "asymp R" unfolding R_def by (rule asympI) (rule jlt_asym)
  have dist: "distinct es" using assms(2) by (rule distinct_map [THEN iffD1, THEN conjunct1])
  have inj: "inj_on amount (set es)" using assms(2) by (rule distinct_map [THEN iffD1, THEN conjunct2])
  have dec: "\<forall>a\<in>set es. \<forall>b\<in>set es. a \<noteq> b \<longrightarrow>
      (jgt (expense_compare localeCompare newDate ''amount'' ''asc'' a b) (Fin 0) = R b a)
      \<and> (jgt (expense_compare localeCompare newDate ''amount'' ''desc'' a b) (Fin 0) = R a b)
      \<and> (R a b \<or> R b a)"
  proof (intro ballI impI)
    fix a b assume a: "a \<in> set es" and b: "b \<in> set es" and ab: "a \<noteq> b"
    from inj a b ab have ne: "amount a \<noteq> amount b" by (meson inj_onD)
    from assms(1) a have pa: "amount a \<noteq> NaN" "is_number (amount a)" by (simp_all add: list_all_iff)
    from assms(1) b have pb: "amount b \<noteq> NaN" "is_number (amount b)" by (simp_all add: list_all_iff)
    from jsub_sign [OF pa(2) pb(2) pa(1) pb(1) ne] jlt_total [OF pa(1) pb(1) ne]
    show "(jgt (expense_compare localeCompare newDate ''amount'' ''asc'' a b) (Fin 0) = R b a)
      \<and> (jgt (expense_compare localeCompare newDate ''amount'' ''desc'' a b) (Fin 0) = R a b)
      \<and> (R a b \<or> R b a)"
      by (simp add: expense_compare_def R_def)
  qed
  from array_sort_rev [OF tr asy dist dec] show ?thesis by (simp add: sortExpenses_def)
qed

text \<open>
  Claim C2, as the code has it. For every criterion and order (any text at all),
  \<open>sortExpenses\<close> returns a permutation of its input, so the ids are the same
  multiset. The sort is stable and \<open>desc\<close> negates the comparison: expenses whose
  amounts are equal keep their input order in both directions. So sorting by amount
  descending is the reverse of sorting by amount ascending when the amounts are
  Numbers other than \<open>NaN\<close> and no two expenses have the same amount.
\<close>

theorem sortExpenses_permutation:
  "mset (sortExpenses localeCompare newDate es criteria order) = mset es
   \<and> image_mset expense_id (mset (sortExpenses localeCompare newDate es criteria order))
       = image_mset expense_id (mset es)
   \<and> (list_all (\<lambda>e. amount e \<noteq> NaN \<and> is_number (amount e)) es \<and> distinct (map amount es)
        \<longrightarrow> rev (sortExpenses localeCompare newDate es ''amount'' ''asc'')
            = sortExpenses localeCompare newDate es ''amount'' ''desc'')"
proof (intro conjI impI)
  show m: "mset (sortExpenses localeCompare newDate es criteria order) = mset es"
    by (simp add: sortExpenses_def mset_array_sort)
  show "image_mset expense_id (mset (sortExpenses localeCompare newDate es criteria order))
       = image_mset expense_id (mset es)"
    by (simp only: m)
next
  assume "list_all (\<lambda>e. amount e \<noteq> NaN \<and> is_number (amount e)) es \<and> distinct (map amount es)"
  then have "sortExpenses localeCompare newDate es ''amount'' ''desc''
         = rev (sortExpenses localeCompare newDate es ''amount'' ''asc'')"
    using sortExpenses_amount_rev [of es localeCompare newDate] by blast
  then show "rev (sortExpenses localeCompare newDate es ''amount'' ''asc'')
            = sortExpenses localeCompare newDate es ''amount'' ''desc''"
    by (rule sym)
qed

theorem sortExpenses_permutation_witness:
  "list_all (\<lambda>e. amount e \<noteq> NaN \<and> is_number (amount e)) [coffee, lunch]
   \<and> distinct (map amount [coffee, lunch])
   \<and> mset (sortExpenses unit_compare iso_date [coffee, lunch] ''amount'' ''desc'') = mset [coffee, lunch]
   \<and> rev (sortExpenses unit_compare iso_date [coffee, lunch] ''amount'' ''asc'')
       = sortExpenses unit_compare iso_date [coffee, lunch] ''amount'' ''desc''"
proof -
  have h: "list_all (\<lambda>e. amount e \<noteq> NaN \<and> is_number (amount e)) [coffee, lunch]
      \<and> distinct (map amount [coffee, lunch])"
    by code_simp
  with sortExpenses_permutation [of unit_compare iso_date "[coffee, lunch]" "''amount''" "''desc''"]
  show ?thesis by blast
qed

text \<open>
  Claim C2 as stated fails: two expenses of the same amount stay in their input order
  under both orders, so the reverse of the ascending sort is not the descending sort.
\<close>

theorem sortExpenses_equal_amounts:
  "rev (sortExpenses unit_compare iso_date [coffee, tea] ''amount'' ''asc'')
   \<noteq> sortExpenses unit_compare iso_date [coffee, tea] ''amount'' ''desc''"
  by code_simp

subsection \<open>Months and dates\<close>


























lemma make_month_ordinal:
  "1970 \<le> y \<Longrightarrow> make_month y m = ((y * 12 + m) div 12, (y * 12 + m) mod 12)"
  by (simp add: make_month_def Let_def)

lemma trend_loop_length: "length (trend_loop newDate monthLabel c state n) = n"
  by (induction n) (simp_all add: Let_def split: prod.splits)

lemma trend_loop_months:
  assumes "valid_clock c"
  shows "map trend_month (trend_loop newDate monthLabel c state n)
         = map (\<lambda>k. ordinal_key (clock_ordinal c - int k)) (rev [0..<n])"
proof (induction n)
  case 0
  show ?case by simp
next
  case (Suc n)
  have y: "1970 \<le> now_year c" using assms by (simp add: valid_clock_def)
  have "make_month (now_year c) (now_month c - int n)
        = ((clock_ordinal c - int n) div 12, (clock_ordinal c - int n) mod 12)"
    using make_month_ordinal [OF y, of "now_month c - int n"]
    by (simp add: clock_ordinal_def algebra_simps)
  with Suc show ?case by (simp add: Let_def ordinal_key_def)
qed

lemma trend_loop_totals:
  "list_all (\<lambda>en. trend_total en = getTotalExpenses newDate state (trend_month en))
     (trend_loop newDate monthLabel c state n)"
  by (induction n) (simp_all add: Let_def split: prod.splits)

lemma ordinal_key_now:
  assumes "valid_clock c"
  shows "ordinal_key (clock_ordinal c) = getCurrentMonth c"
proof -
  have "0 \<le> now_month c" "now_month c < 12" using assms by (simp_all add: valid_clock_def)
  then have "(now_year c * 12 + now_month c) div 12 = now_year c"
    and "(now_year c * 12 + now_month c) mod 12 = now_month c" by simp_all
  then show ?thesis by (simp add: ordinal_key_def clock_ordinal_def getCurrentMonth_def)
qed

text \<open>
  Claim C6. With the clock of a running browser, \<open>getSpendingTrend(state, 6)\<close> has
  exactly 6 entries; their months are the keys of the 6 consecutive months that end
  with the clock's month, the oldest first; the last entry's month is
  \<open>getCurrentMonth()\<close> of the same clock; and every entry's total is
  \<open>getTotalExpenses\<close> of the state for that entry's month.
\<close>

theorem getSpendingTrend_six_months:
  assumes "valid_clock c"
  shows "length (getSpendingTrend newDate monthLabel c state 6) = 6
    \<and> map trend_month (getSpendingTrend newDate monthLabel c state 6)
        = map (\<lambda>k. ordinal_key (clock_ordinal c - k)) [5, 4, 3, 2, 1, 0]
    \<and> trend_month (last (getSpendingTrend newDate monthLabel c state 6)) = getCurrentMonth c
    \<and> list_all (\<lambda>en. trend_total en = getTotalExpenses newDate state (trend_month en))
         (getSpendingTrend newDate monthLabel c state 6)"
proof -
  let ?t = "getSpendingTrend newDate monthLabel c state 6"
  have len: "length ?t = 6" by (simp add: getSpendingTrend_def trend_loop_length)
  have r: "rev [0..<6] = [5, 4, 3, 2, 1, 0 :: nat]" by (simp add: upt_rec)
  have months: "map trend_month ?t = map (\<lambda>k. ordinal_key (clock_ordinal c - k)) [5, 4, 3, 2, 1, 0]"
    using trend_loop_months [OF assms, of newDate monthLabel state 6]
    by (simp add: getSpendingTrend_def r)
  have ne: "?t \<noteq> []" using len by auto
  have "trend_month (last ?t) = last (map trend_month ?t)" using ne by (simp add: last_map)
  also have "\<dots> = ordinal_key (clock_ordinal c)" by (simp add: months)
  finally have lst: "trend_month (last ?t) = getCurrentMonth c"
    by (simp add: ordinal_key_now [OF assms])
  have tot: "list_all (\<lambda>en. trend_total en = getTotalExpenses newDate state (trend_month en)) ?t"
    by (simp add: getSpendingTrend_def trend_loop_totals)
  from len months lst tot show ?thesis by blast
qed

theorem getSpendingTrend_six_months_witness:
  "valid_clock sample_clock
   \<and> map trend_month (getSpendingTrend iso_date english_label sample_clock november_state 6)
       = [''2026-06'', ''2026-07'', ''2026-08'', ''2026-09'', ''2026-10'', ''2026-11'']
   \<and> trend_month (last (getSpendingTrend iso_date english_label sample_clock november_state 6))
       = ''2026-11''"
proof -
  have h: "valid_clock sample_clock" by code_simp
  have k: "map (\<lambda>k. ordinal_key (clock_ordinal sample_clock - k)) [5, 4, 3, 2, 1, 0]
      = [''2026-06'', ''2026-07'', ''2026-08'', ''2026-09'', ''2026-10'', ''2026-11'']"
    by code_simp
  have n: "getCurrentMonth sample_clock = ''2026-11''" by code_simp
  from getSpendingTrend_six_months [OF h, of iso_date english_label november_state] h k n
  show ?thesis by simp
qed

subsection \<open>Export\<close>







subsection \<open>Validation\<close>

text \<open>
  Claim C8 at the input where the code departs from it. The amount check is
  \<open>!amount || parseFloat(amount) <= 0\<close>: a text that is no number parses to \<open>NaN\<close>,
  which is not \<open><= 0\<close>, so such an amount passes although it is not greater than 0.
  The draft is valid for \<open>validateExpense\<close>, and \<open>addExpense\<close> stores \<open>NaN\<close>.
\<close>

theorem validateExpense_unparseable_amount:
  "validateExpense abc_draft = \<lparr>isValid = True, errors = []\<rparr>
   \<and> amount (last (expenses (addExpense sample_clock (defaultState sample_clock) abc_draft))) = NaN"
  by code_simp

text \<open>
  The rest of claim C8 holds: the draft of the scenario gets the one error about the
  name, and each message is reported exactly when its own check fails, whatever the
  other fields are.
\<close>

lemma validateExpense_blank_name:
  "validateExpense \<lparr>draft_name = [], draft_category = ''Food'', draft_amount = AmountNumber (Fin 10),
       draft_date = ''2024-01-01'', draft_notes = nt\<rparr>
   = \<lparr>isValid = False, errors = [''Expense name is required'']\<rparr>"
  by (simp add: validateExpense_def Let_def falsy_num_def jle_def jeq_def)

lemma validateExpense_independent:
  "(''Expense name is required'' \<in> set (errors (validateExpense d)))
     = (draft_name d = [] \<or> trim (draft_name d) = [])"
  "(''Category is required'' \<in> set (errors (validateExpense d))) = (draft_category d = [])"
  "(''Amount must be greater than 0'' \<in> set (errors (validateExpense d)))
     = (falsy_amount (draft_amount d) \<or> jle (parseFloat_of (draft_amount d)) (Fin 0))"
  "(''Date is required'' \<in> set (errors (validateExpense d))) = (draft_date d = [])"
  "isValid (validateExpense d) = (errors (validateExpense d) = [])"
  by (simp_all add: validateExpense_def Let_def)

subsection \<open>Totals by category\<close>



























subsection \<open>Insights\<close>










end
